theory Spec2Isabelle
  imports Main "HOL-Library.Word"
begin

section \<open>Values shared by the modules\<close>

text \<open>
  A Python \<open>str\<close> is a sequence of Unicode code points and \<open>len\<close> counts code points,
  so text is a list of natural numbers. \<open>bytes\<close> is a list of 8-bit words.
  \<open>str\<close> turns an ASCII literal of this file into text.
\<close>

type_synonym pystr = "nat list"
type_synonym byte = "8 word"
type_synonym bytes = "byte list"

definition str :: "string \<Rightarrow> pystr" where
  "str s = map of_char s"

text \<open>
  The exception classes the modules raise, catch or let through, with Python's
  subclass relation: \<open>isinstance e c\<close> holds when an \<open>except c\<close> clause catches \<open>e\<close>.
\<close>

datatype exn =
    UnicodeDecodeError | UnicodeEncodeError | UnicodeError | LookupError | KeyError
  | ValueError | TypeError | JSONDecodeError
  | EmailFetcherError | AuthenticationError | ConnectionError
  | IMAP4_error | socket_timeout | OSError

fun parent :: "exn \<Rightarrow> exn option" where
  "parent UnicodeDecodeError = Some UnicodeError"
| "parent UnicodeEncodeError = Some UnicodeError"
| "parent UnicodeError = Some ValueError"
| "parent JSONDecodeError = Some ValueError"
| "parent KeyError = Some LookupError"
| "parent AuthenticationError = Some EmailFetcherError"
| "parent ConnectionError = Some EmailFetcherError"
| "parent socket_timeout = Some OSError"
| "parent _ = None"

fun isinstance :: "exn \<Rightarrow> exn \<Rightarrow> bool" where
  "isinstance e c =
     (e = c \<or> parent e = Some c \<or>
      (case parent e of None \<Rightarrow> False
       | Some p \<Rightarrow> parent p = Some c))"

section \<open>models.py: the Email value\<close>

text \<open>
  The dataclass \<open>Email\<close> has five fields. Python does not enforce the annotated
  field type, so the record is polymorphic in what a field holds: \<open>pystr Email\<close> is a
  message whose fields are strings. The field \<open>id\<close> is named \<open>id_field\<close> here.
\<close>

record 'a Email =
  id_field :: 'a
  subject :: 'a
  sender :: 'a
  date :: 'a
  body :: 'a

section \<open>main.py: the pipeline driver\<close>









section \<open>JSON values\<close>

text \<open>
  What \<open>json.loads\<close> returns and \<open>json.dumps\<close> and \<open>requests\<close> take: Python
  values built from \<open>None\<close>, booleans, numbers, strings, lists and dicts with string
  keys. A dict is an association list read with \<open>map_of\<close>. \<open>subscript d k\<close> is
  the Python expression \<open>d[k]\<close> for a string \<open>k\<close>: only a dict can be indexed by a
  string, a missing key raises \<open>KeyError\<close>, and every other value raises \<open>TypeError\<close>.
\<close>

datatype json =
    JNull | JBool bool | JNumber int | JString pystr
  | JArray "json list" | JObject "(pystr \<times> json) list"

fun subscript :: "json \<Rightarrow> pystr \<Rightarrow> exn + json" where
  "subscript (JObject kvs) k =
     (case map_of kvs k of None \<Rightarrow> Inl KeyError | Some v \<Rightarrow> Inr v)"
| "subscript v k = Inl TypeError"

section \<open>dingtalk_notifier.py: formatting the message\<close>

definition truncation_marker :: pystr where
  "truncation_marker = [46, 46, 46, 40, 20869, 23481, 24050, 25130, 26029, 41]"

definition title_text :: pystr where
  "title_text = [26032, 37038, 20214, 36890, 30693]"

text \<open>
  The f-string of \<open>format_message\<close>, as code points: the constant pieces around the
  interpolated subject, sender, date and body.
\<close>

definition heading_piece :: pystr where
  "heading_piece = [35, 35, 35, 32, 128231, 32, 26032, 37038, 20214, 36890, 30693, 10, 10,
     42, 42, 20027, 39064, 58, 42, 42, 32]"

definition sender_piece :: pystr where
  "sender_piece = [10, 10, 42, 42, 21457, 20214, 20154, 58, 42, 42, 32]"

definition date_piece :: pystr where
  "date_piece = [10, 10, 42, 42, 26102, 38388, 58, 42, 42, 32]"

definition content_piece :: pystr where
  "content_piece = [10, 10, 45, 45, 45, 10, 10, 42, 42, 20869, 23481, 58, 42, 42, 10, 10]"

text \<open>
  \<open>format_message\<close> receives the \<open>Email\<close> object by reference, so the model returns
  the object as the call leaves it next to the dict it builds.
\<close>

definition format_message :: "pystr Email \<Rightarrow> json \<times> pystr Email" where
  "format_message email =
     (let body0 = body email;
          body1 = (if length body0 > 2000 then take 2000 body0 @ truncation_marker
                   else body0);
          markdown_text = heading_piece @ subject email @ sender_piece @ sender email
                          @ date_piece @ date email @ content_piece @ body1
      in (JObject [(str ''msgtype'', JString (str ''markdown'')),
                   (str ''markdown'',
                    JObject [(str ''title'', JString title_text),
                             (str ''text'', JString markdown_text)])],
          email))"

text \<open>Reading the text out of the dict: \<open>payload['markdown']['text']\<close>.\<close>

definition markdown_text_of :: "json \<Rightarrow> exn + json" where
  "markdown_text_of payload =
     (case subscript payload (str ''markdown'') of
        Inl e \<Rightarrow> Inl e
      | Inr m \<Rightarrow> subscript m (str ''text''))"

section \<open>dingtalk_notifier.py: sending with retry\<close>







section \<open>email_fetcher.py: connecting\<close>









section \<open>Python's codecs\<close>

text \<open>
  \<open>bytes.decode\<close> and \<open>str.encode\<close> belong to Python, not to the repository. ISO-8859-1,
  ASCII and UTF-8 are written out below from their definitions. The codec named
  \<open>undefined\<close> of the standard library raises \<open>UnicodeError\<close> on every use. The three
  Chinese codecs are tables too large to write out, so they are parameters: each
  either decodes or raises \<open>UnicodeDecodeError\<close>. Every other charset name is left to
  a parameter that may raise any exception, as is decoding with \<open>errors='replace'\<close>.
\<close>

record codec =
  encode :: "pystr \<Rightarrow> bytes option"
  decode :: "bytes \<Rightarrow> pystr option"

record codecs =
  gbk :: codec
  gb2312 :: codec
  gb18030 :: codec
  other_decode :: "pystr \<Rightarrow> bytes \<Rightarrow> exn + pystr"
  utf_8_replace :: "bytes \<Rightarrow> pystr"

definition latin_1 :: codec where
  "latin_1 =
     \<lparr>encode = (\<lambda>t. if list_all (\<lambda>cp. cp < 256) t then Some (map of_nat t) else None),
      decode = (\<lambda>content. Some (map unat content))\<rparr>"

definition ascii :: codec where
  "ascii =
     \<lparr>encode = (\<lambda>t. if list_all (\<lambda>cp. cp < 128) t then Some (map of_nat t) else None),
      decode = (\<lambda>content. if list_all (\<lambda>b. unat b < 128) content
                            then Some (map unat content) else None)\<rparr>"

text \<open>UTF-8: one code point to one to four bytes; surrogates cannot be encoded.\<close>

definition utf8_encode_char :: "nat \<Rightarrow> bytes option" where
  "utf8_encode_char cp =
     (if cp < 0x80 then Some [of_nat cp]
      else if cp < 0x800 then Some [of_nat (0xC0 + cp div 64), of_nat (0x80 + cp mod 64)]
      else if 0xD800 \<le> cp \<and> cp \<le> 0xDFFF then None
      else if cp < 0x10000 then
        Some [of_nat (0xE0 + cp div 4096), of_nat (0x80 + cp div 64 mod 64),
              of_nat (0x80 + cp mod 64)]
      else if cp < 0x110000 then
        Some [of_nat (0xF0 + cp div 262144), of_nat (0x80 + cp div 4096 mod 64),
              of_nat (0x80 + cp div 64 mod 64), of_nat (0x80 + cp mod 64)]
      else None)"

fun utf8_encode :: "pystr \<Rightarrow> bytes option" where
  "utf8_encode [] = Some []"
| "utf8_encode (cp # t) =
     (case utf8_encode_char cp of
        None \<Rightarrow> None
      | Some bs \<Rightarrow> map_option (\<lambda>rest. bs @ rest) (utf8_encode t))"

definition continuation :: "byte \<Rightarrow> bool" where
  "continuation b = (0x80 \<le> unat b \<and> unat b \<le> 0xBF)"

text \<open>
  Strict UTF-8 decoding: a lead byte, its continuation bytes, and no overlong form,
  surrogate or value above \<open>0x10FFFF\<close>.
\<close>

fun utf8_decode :: "bytes \<Rightarrow> pystr option" where
  "utf8_decode [] = Some []"
| "utf8_decode (b0 # r) =
     (if unat b0 < 0x80 then map_option (\<lambda>t. unat b0 # t) (utf8_decode r)
      else if 0xC2 \<le> unat b0 \<and> unat b0 \<le> 0xDF then
        (case r of
           b1 # r1 \<Rightarrow>
             if continuation b1
             then map_option (\<lambda>t. ((unat b0 - 0xC0) * 64 + (unat b1 - 0x80)) # t)
                    (utf8_decode r1)
             else None
         | _ \<Rightarrow> None)
      else if 0xE0 \<le> unat b0 \<and> unat b0 \<le> 0xEF then
        (case r of
           b1 # b2 # r2 \<Rightarrow>
             (let cp = (unat b0 - 0xE0) * 4096 + (unat b1 - 0x80) * 64 + (unat b2 - 0x80)
              in if continuation b1 \<and> continuation b2 \<and> 0x800 \<le> cp
                    \<and> \<not> (0xD800 \<le> cp \<and> cp \<le> 0xDFFF)
                 then map_option (\<lambda>t. cp # t) (utf8_decode r2)
                 else None)
         | _ \<Rightarrow> None)
      else if 0xF0 \<le> unat b0 \<and> unat b0 \<le> 0xF4 then
        (case r of
           b1 # b2 # b3 # r3 \<Rightarrow>
             (let cp = (unat b0 - 0xF0) * 262144 + (unat b1 - 0x80) * 4096
                       + (unat b2 - 0x80) * 64 + (unat b3 - 0x80)
              in if continuation b1 \<and> continuation b2 \<and> continuation b3
                    \<and> 0x10000 \<le> cp \<and> cp \<le> 0x10FFFF
                 then map_option (\<lambda>t. cp # t) (utf8_decode r3)
                 else None)
         | _ \<Rightarrow> None)
      else None)"

definition utf_8 :: codec where
  "utf_8 = \<lparr>encode = utf8_encode, decode = utf8_decode\<rparr>"

definition strict :: "pystr option \<Rightarrow> exn + pystr" where
  "strict r = (case r of None \<Rightarrow> Inl UnicodeDecodeError | Some t \<Rightarrow> Inr t)"

text \<open>\<open>content.decode(charset)\<close>: the decoded text or the exception raised.\<close>

definition bytes_decode :: "codecs \<Rightarrow> bytes \<Rightarrow> pystr \<Rightarrow> exn + pystr" where
  "bytes_decode L content charset =
     (if charset = str ''utf-8'' then strict (decode utf_8 content)
      else if charset = str ''gbk'' then strict (decode (gbk L) content)
      else if charset = str ''gb2312'' then strict (decode (gb2312 L) content)
      else if charset = str ''gb18030'' then strict (decode (gb18030 L) content)
      else if charset = str ''iso-8859-1'' then strict (decode latin_1 content)
      else if charset = str ''ascii'' then strict (decode ascii content)
      else if charset = str ''undefined'' then Inl UnicodeError
      else other_decode L charset content)"

text \<open>\<open>t.encode(charset)\<close> for the six supported names; \<open>None\<close> when it raises.\<close>

definition str_encode :: "codecs \<Rightarrow> pystr \<Rightarrow> pystr \<Rightarrow> bytes option" where
  "str_encode L t charset =
     (if charset = str ''utf-8'' then encode utf_8 t
      else if charset = str ''gbk'' then encode (gbk L) t
      else if charset = str ''gb2312'' then encode (gb2312 L) t
      else if charset = str ''gb18030'' then encode (gb18030 L) t
      else if charset = str ''iso-8859-1'' then encode latin_1 t
      else if charset = str ''ascii'' then encode ascii t
      else None)"

section \<open>email_parser.py: decoding content\<close>

definition SUPPORTED_ENCODINGS :: "pystr list" where
  "SUPPORTED_ENCODINGS =
     [str ''utf-8'', str ''gbk'', str ''gb2312'', str ''gb18030'', str ''iso-8859-1'',
      str ''ascii'']"

text \<open>The clause \<open>except (UnicodeDecodeError, LookupError)\<close>.\<close>

definition caught :: "exn \<Rightarrow> bool" where
  "caught e = (isinstance e UnicodeDecodeError \<or> isinstance e LookupError)"

text \<open>
  The branch \<open>if charset:\<close>. \<open>None\<close> and the empty string are false in Python.
  The result is the text returned, \<open>None\<close> when control passes on to the loop, or the
  exception that no clause catches.
\<close>

definition declared_attempt :: "codecs \<Rightarrow> bytes \<Rightarrow> pystr option \<Rightarrow> exn + pystr option" where
  "declared_attempt L content charset =
     (case charset of
        None \<Rightarrow> Inr None
      | Some cs \<Rightarrow>
          if cs = [] then Inr None
          else (case bytes_decode L content cs of
                  Inr t \<Rightarrow> Inr (Some t)
                | Inl e \<Rightarrow> if caught e then Inr None else Inl e))"

text \<open>
  The loop over \<open>SUPPORTED_ENCODINGS\<close>: the encoding that decoded and its text,
  \<open>None\<close> when the loop runs out, or the exception that no clause catches.
\<close>

fun fallback_loop :: "codecs \<Rightarrow> bytes \<Rightarrow> pystr list \<Rightarrow> exn + (pystr \<times> pystr) option" where
  "fallback_loop L content [] = Inr None"
| "fallback_loop L content (encoding # encodings) =
     (case bytes_decode L content encoding of
        Inr t \<Rightarrow> Inr (Some (encoding, t))
      | Inl e \<Rightarrow> if caught e then fallback_loop L content encodings else Inl e)"

text \<open>
  \<open>decode_content\<close>, with the \<open>return\<close> statement that produced the text next to
  the text.
\<close>

datatype returned_by = Empty_content | Declared_charset | Fallback pystr | Replacement

definition decode_content_by ::
  "codecs \<Rightarrow> bytes \<Rightarrow> pystr option \<Rightarrow> exn + (returned_by \<times> pystr)" where
  "decode_content_by L content charset =
     (if content = [] then Inr (Empty_content, [])
      else
        (case declared_attempt L content charset of
           Inl e \<Rightarrow> Inl e
         | Inr (Some t) \<Rightarrow> Inr (Declared_charset, t)
         | Inr None \<Rightarrow>
             (case fallback_loop L content SUPPORTED_ENCODINGS of
                Inl e \<Rightarrow> Inl e
              | Inr (Some (encoding, t)) \<Rightarrow> Inr (Fallback encoding, t)
              | Inr None \<Rightarrow> Inr (Replacement, utf_8_replace L content))))"

definition decode_content :: "codecs \<Rightarrow> bytes \<Rightarrow> pystr option \<Rightarrow> exn + pystr" where
  "decode_content L content charset =
     (case decode_content_by L content charset of
        Inl e \<Rightarrow> Inl e
      | Inr (r, t) \<Rightarrow> Inr t)"

text \<open>
  What the roundtrip claim needs of a codec of the library: it decodes what it
  encodes, and it decodes the empty byte string to the empty text.
\<close>

definition codec_roundtrip :: "codec \<Rightarrow> bool" where
  "codec_roundtrip c =
     ((\<forall>t bs. encode c t = Some bs \<longrightarrow> decode c bs = Some t) \<and> decode c [] = Some [])"

section \<open>dingtalk_notifier.py: signing\<close>




text \<open>
  \<open>base64.b64encode\<close>: three bytes to four characters of the alphabet
  \<open>A-Z a-z 0-9 + /\<close>, the last group padded with \<open>=\<close>.
\<close>

definition b64_char :: "nat \<Rightarrow> byte" where
  "b64_char i =
     of_nat (if i < 26 then 65 + i else if i < 52 then 97 + (i - 26)
             else if i < 62 then 48 + (i - 52) else if i = 62 then 43 else 47)"







section \<open>models.py: serialising an Email\<close>

text \<open>
  \<open>json.dumps\<close> and \<open>json.loads\<close> belong to Python and are parameters; \<open>loads\<close> gives
  \<open>None\<close> where Python raises \<open>JSONDecodeError\<close>.
\<close>

record json_module =
  dumps :: "json \<Rightarrow> pystr"
  loads :: "pystr \<Rightarrow> json option"

definition asdict :: "pystr Email \<Rightarrow> json" where
  "asdict email =
     JObject [(str ''id'', JString (id_field email)),
              (str ''subject'', JString (subject email)),
              (str ''sender'', JString (sender email)),
              (str ''date'', JString (date email)),
              (str ''body'', JString (body email))]"

definition serialize :: "json_module \<Rightarrow> pystr Email \<Rightarrow> pystr" where
  "serialize J email = dumps J (asdict email)"

text \<open>
  The call \<open>cls(id=data['id'], ...)\<close>: the five subscripts in the order written; the
  first one that raises ends the call.
\<close>

definition from_data :: "json \<Rightarrow> exn + json Email" where
  "from_data data =
     (case subscript data (str ''id'') of Inl e \<Rightarrow> Inl e | Inr v1 \<Rightarrow>
      (case subscript data (str ''subject'') of Inl e \<Rightarrow> Inl e | Inr v2 \<Rightarrow>
       (case subscript data (str ''sender'') of Inl e \<Rightarrow> Inl e | Inr v3 \<Rightarrow>
        (case subscript data (str ''date'') of Inl e \<Rightarrow> Inl e | Inr v4 \<Rightarrow>
         (case subscript data (str ''body'') of Inl e \<Rightarrow> Inl e | Inr v5 \<Rightarrow>
            Inr \<lparr>id_field = v1, subject = v2, sender = v3, date = v4, body = v5\<rparr>)))))"

text \<open>
  \<open>deserialize\<close>: the clause \<open>except (json.JSONDecodeError, KeyError)\<close> raises
  \<open>ValueError\<close>; any other exception leaves the method as it is.
\<close>

definition deserialize :: "json_module \<Rightarrow> pystr \<Rightarrow> exn + json Email" where
  "deserialize J json_str =
     (case (case loads J json_str of
              None \<Rightarrow> Inl JSONDecodeError
            | Some data \<Rightarrow> from_data data) of
        Inl e \<Rightarrow>
          if isinstance e JSONDecodeError \<or> isinstance e KeyError then Inl ValueError
          else Inl e
      | Inr email \<Rightarrow> Inr email)"

section \<open>email_parser.py: HTML to text\<close>

text \<open>
  \<open>HTMLParser.feed\<close> belongs to Python; it calls the three handlers of
  \<open>HTMLTextExtractor\<close> with the start tags, end tags and text runs of the document
  (a tag written \<open><x/>\<close> arrives as a start tag followed by an end tag).
\<close>

datatype html_event = StartTag pystr | EndTag pystr | Data pystr

record extractor =
  text_parts :: "pystr list"
  skip_data :: bool

definition new_extractor :: extractor where
  "new_extractor = \<lparr>text_parts = [], skip_data = False\<rparr>"

definition skip_tags :: "pystr list" where
  "skip_tags = [str ''script'', str ''style'', str ''head'', str ''meta'', str ''link'']"

text \<open>
  \<open>str.lower\<close>, on the characters whose lower-case form is an ASCII letter: the
  capital letters and the Kelvin sign. Other characters are left as they are, which
  does not change whether the result is one of the ASCII tag names below.
\<close>

definition lower_char :: "nat \<Rightarrow> nat" where
  "lower_char c = (if 65 \<le> c \<and> c \<le> 90 then c + 32 else if c = 0x212A then 107 else c)"

definition lower :: "pystr \<Rightarrow> pystr" where
  "lower t = map lower_char t"

definition handle_starttag :: "extractor \<Rightarrow> pystr \<Rightarrow> extractor" where
  "handle_starttag x tag =
     (if lower tag \<in> set skip_tags then x\<lparr>skip_data := True\<rparr>
      else if lower tag \<in> set [str ''br'', str ''p'', str ''div'', str ''tr'', str ''li'']
        then x\<lparr>text_parts := text_parts x @ [[10]]\<rparr>
      else x)"

definition handle_endtag :: "extractor \<Rightarrow> pystr \<Rightarrow> extractor" where
  "handle_endtag x tag =
     (if lower tag \<in> set skip_tags then x\<lparr>skip_data := False\<rparr>
      else if lower tag \<in> set [str ''p'', str ''div'', str ''tr'', str ''h1'', str ''h2'',
                              str ''h3'', str ''h4'', str ''h5'', str ''h6'']
        then x\<lparr>text_parts := text_parts x @ [[10]]\<rparr>
      else x)"

definition handle_data :: "extractor \<Rightarrow> pystr \<Rightarrow> extractor" where
  "handle_data x data =
     (if \<not> skip_data x then x\<lparr>text_parts := text_parts x @ [data]\<rparr> else x)"

fun handle :: "extractor \<Rightarrow> html_event \<Rightarrow> extractor" where
  "handle x (StartTag tag) = handle_starttag x tag"
| "handle x (EndTag tag) = handle_endtag x tag"
| "handle x (Data data) = handle_data x data"

definition feed :: "extractor \<Rightarrow> html_event list \<Rightarrow> extractor" where
  "feed x events = foldl handle x events"

text \<open>
  The whitespace of Python's \<open>\s\<close> and of \<open>str.strip\<close>, as code points.
\<close>

definition is_space :: "nat \<Rightarrow> bool" where
  "is_space c =
     ((9 \<le> c \<and> c \<le> 13) \<or> (28 \<le> c \<and> c \<le> 32) \<or> c = 0x85 \<or> c = 0xA0 \<or> c = 0x1680
      \<or> (0x2000 \<le> c \<and> c \<le> 0x200A) \<or> c = 0x2028 \<or> c = 0x2029 \<or> c = 0x202F
      \<or> c = 0x205F \<or> c = 0x3000)"

text \<open>
  \<open>re.sub(r'\n\s*\n', '\n\n', text)\<close>. A match starts at a newline and runs to the
  last newline of the whitespace that follows, if there is one; the scan goes on
  after the match.
\<close>

function collapse_blank_lines :: "pystr \<Rightarrow> pystr" where
  "collapse_blank_lines [] = []"
| "collapse_blank_lines (c # t) =
     (if c = 10 \<and> 10 \<in> set (takeWhile is_space t)
      then [10, 10] @ rev (takeWhile (\<lambda>d. d \<noteq> 10) (rev (takeWhile is_space t)))
           @ collapse_blank_lines (dropWhile is_space t)
      else c # collapse_blank_lines t)"
  by pat_completeness auto
termination
  by (relation "measure length") (auto simp add: length_dropWhile_le less_Suc_eq_le)

text \<open>\<open>re.sub(r' +', ' ', text)\<close>.\<close>

function collapse_spaces :: "pystr \<Rightarrow> pystr" where
  "collapse_spaces [] = []"
| "collapse_spaces (c # t) =
     (if c = 32 then 32 # collapse_spaces (dropWhile (\<lambda>d. d = 32) t)
      else c # collapse_spaces t)"
  by pat_completeness auto
termination
  by (relation "measure length") (auto simp add: length_dropWhile_le less_Suc_eq_le)

definition strip :: "pystr \<Rightarrow> pystr" where
  "strip t = rev (dropWhile is_space (rev (dropWhile is_space t)))"

definition get_text :: "extractor \<Rightarrow> pystr" where
  "get_text x = strip (collapse_spaces (collapse_blank_lines (concat (text_parts x))))"

text \<open>
  \<open>_html_to_text\<close>. The parser's tokenising is a parameter that gives the events or
  the exception \<open>feed\<close> raises; the \<open>except Exception\<close> branch, four \<open>re.sub\<close> calls
  and a \<open>strip\<close>, is a parameter too.
\<close>

record html_library =
  tokenize :: "pystr \<Rightarrow> exn + html_event list"
  regex_strip :: "pystr \<Rightarrow> pystr"

definition html_to_text :: "html_library \<Rightarrow> pystr \<Rightarrow> pystr" where
  "html_to_text H html =
     (case tokenize H html of
        Inr events \<Rightarrow> get_text (feed new_extractor events)
      | Inl e \<Rightarrow> regex_strip H html)"

section \<open>Instances used to run the definitions\<close>

text \<open>
  Three unread messages; the notifier fails for the second one and every mark-read
  succeeds.
\<close>

definition message_1 :: "pystr Email" where
  "message_1 = \<lparr>id_field = str ''1'', subject = str ''a'', sender = str ''x'',
                 date = [], body = str ''one''\<rparr>"






text \<open>A message whose body has 2001 characters.\<close>

definition long_message :: "pystr Email" where
  "long_message = \<lparr>id_field = str ''9'', subject = str ''s'', sender = str ''f'',
                    date = str ''d'', body = replicate 2001 120\<rparr>"





text \<open>
  A library whose three Chinese codecs are cut down to their single-byte range, which
  is ASCII, and which knows no other charset name.
\<close>

definition ascii_only :: codecs where
  "ascii_only =
     \<lparr>gbk = ascii, gb2312 = ascii, gb18030 = ascii,
      other_decode = (\<lambda>charset content. Inl LookupError),
      utf_8_replace = (\<lambda>content. map unat content)\<rparr>"

text \<open>
  The \<open>json\<close> module on the strings and the dict used below, as Python computes
  them; the table takes every other string as malformed and writes every other value
  as \<open>null\<close>.
\<close>

definition message_1_json :: pystr where
  \<open>message_1_json = str ''{"id": "1", "subject": "a", "sender": "x", "date": "", "body": "one"}''\<close>

definition json_table :: json_module where
  "json_table =
     \<lparr>dumps = (\<lambda>v. if v = asdict message_1 then message_1_json else str ''null''),
      loads = (\<lambda>s. if s = message_1_json then Some (asdict message_1)
                     else if s = str ''[]'' then Some (JArray [])
                     else if s = str ''{'' then None
                     else None)\<rparr>"

text \<open>
  The events \<open>HTMLParser\<close> produces for the document
  \<open><head><style>a{}</style><title>T</title></head><p>Hi</p>\<close>.
\<close>

definition leaking_document :: "html_event list" where
  "leaking_document =
     [StartTag (str ''head''), StartTag (str ''style''), Data (str ''a{}''),
      EndTag (str ''style''), StartTag (str ''title''), Data (str ''T''),
      EndTag (str ''title''), EndTag (str ''head''), StartTag (str ''p''),
      Data (str ''Hi''), EndTag (str ''p'')]"


section \<open>The pipeline driver: results\<close>


lemma str_simps: "str [] = []" "str (c # cs) = of_char c # str cs"
  by (simp_all add: str_def)

lemma str_eq_iff [simp]: "str a = str b \<longleftrightarrow> a = b"
proof -
  have "inj (of_char :: char \<Rightarrow> nat)" by (simp add: inj_on_def)
  then show ?thesis by (simp add: str_def inj_map_eq_map)
qed






text \<open>
  Claim C7. A body of more than 2000 characters enters the payload's text as its first
  2000 characters followed by the truncation marker; a body of at most 2000 characters
  enters unchanged; and the Email object is the same after the call.
\<close>

theorem format_message_truncates:
  "(2000 < length (body email) \<longrightarrow>
      markdown_text_of (fst (format_message email)) =
        Inr (JString (heading_piece @ subject email @ sender_piece @ sender email
                      @ date_piece @ date email @ content_piece
                      @ take 2000 (body email) @ truncation_marker)))
   \<and> (length (body email) \<le> 2000 \<longrightarrow>
      markdown_text_of (fst (format_message email)) =
        Inr (JString (heading_piece @ subject email @ sender_piece @ sender email
                      @ date_piece @ date email @ content_piece @ body email)))
   \<and> snd (format_message email) = email"
  by (simp add: format_message_def markdown_text_of_def Let_def str_simps)

text \<open>A body of 2001 characters and a body of three.\<close>

theorem format_message_long_and_short:
  "markdown_text_of (fst (format_message long_message)) =
     Inr (JString (heading_piece @ str ''s'' @ sender_piece @ str ''f'' @ date_piece
                   @ str ''d'' @ content_piece @ replicate 2000 120 @ truncation_marker))
   \<and> body (snd (format_message long_message)) = replicate 2001 120
   \<and> markdown_text_of (fst (format_message message_1)) =
     Inr (JString (heading_piece @ str ''a'' @ sender_piece @ str ''x'' @ date_piece
                   @ content_piece @ str ''one''))
   \<and> snd (format_message message_1) = message_1"
proof -
  have l: "2000 < length (body long_message)" "take 2000 (body long_message) = replicate 2000 120"
    by (simp_all add: long_message_def)
  have s: "length (body message_1) \<le> 2000"
    by (simp add: message_1_def str_def)
  from format_message_truncates [of long_message] format_message_truncates [of message_1] l s
  show ?thesis
    by (simp add: long_message_def message_1_def)
qed




section \<open>The codecs and the content decoder: results\<close>

lemma unat_byte: "n < 256 \<Longrightarrow> unat (of_nat n :: byte) = n"
  by (simp add: unat_of_nat)

lemma utf8_digits3: "(cp::nat) div 4096 * 4096 + cp div 64 mod 64 * 64 + cp mod 64 = cp"
proof -
  have "cp div 64 = (cp div 64 div 64) * 64 + cp div 64 mod 64" by simp
  moreover have "cp div 64 div 64 = cp div 4096" by (simp add: div_mult2_eq [symmetric])
  moreover have "cp = cp div 64 * 64 + cp mod 64" by simp
  ultimately show ?thesis by arith
qed

lemma utf8_digits4: "(cp::nat) div 262144 * 262144 + cp div 4096 mod 64 * 4096 + cp div 64 mod 64 * 64
             + cp mod 64 = cp"
proof -
  have "cp div 4096 = (cp div 4096 div 64) * 64 + cp div 4096 mod 64" by simp
  moreover have "cp div 4096 div 64 = cp div 262144" by (simp add: div_mult2_eq [symmetric])
  moreover have "cp div 4096 * 4096 + cp div 64 mod 64 * 64 + cp mod 64 = cp" by (rule utf8_digits3)
  ultimately show ?thesis by arith
qed


lemma utf8_decode_encode_char:
  "utf8_encode_char cp = Some bs \<Longrightarrow>
     utf8_decode (bs @ r) = map_option (\<lambda>t. cp # t) (utf8_decode r)"
proof -
  assume a: "utf8_encode_char cp = Some bs"
  have m: "cp mod 64 < 64" "cp div 64 mod 64 < 64" "cp div 4096 mod 64 < 64" by simp_all
  have m': "cp mod 64 \<le> 63" "cp div 64 mod 64 \<le> 63" "cp div 4096 mod 64 \<le> 63"
    by arith+
  consider "cp < 0x80" | "0x80 \<le> cp \<and> cp < 0x800" | "0x800 \<le> cp \<and> cp < 0x10000"
    | "0x10000 \<le> cp \<and> cp < 0x110000" | "0x110000 \<le> cp" by linarith
  then show ?thesis
  proof cases
    case 1
    with a have "bs = [of_nat cp]" by (simp add: utf8_encode_char_def)
    with 1 show ?thesis by (simp add: unat_byte)
  next
    case 2
    with a have bs: "bs = [of_nat (0xC0 + cp div 64), of_nat (0x80 + cp mod 64)]"
      by (simp add: utf8_encode_char_def)
    from 2 have d: "2 \<le> cp div 64" "cp div 64 < 32" by arith+
    from d m have u: "unat (of_nat (0xC0 + cp div 64) :: byte) = 0xC0 + cp div 64"
      "unat (of_nat (0x80 + cp mod 64) :: byte) = 0x80 + cp mod 64"
      by (intro unat_byte; simp)+
    have e: "cp div 64 * 64 + cp mod 64 = cp" by simp
    from bs u d m' show ?thesis
      by (simp add: continuation_def e del: of_nat_add)
  next
    case 3
    with a have ns: "\<not> (0xD800 \<le> cp \<and> cp \<le> 0xDFFF)"
      by (auto simp add: utf8_encode_char_def split: if_splits)
    with a 3 have bs: "bs = [of_nat (0xE0 + cp div 4096), of_nat (0x80 + cp div 64 mod 64),
              of_nat (0x80 + cp mod 64)]"
      by (auto simp add: utf8_encode_char_def split: if_splits)
    from 3 have d: "cp div 4096 < 16" by arith
    from d m have u: "unat (of_nat (0xE0 + cp div 4096) :: byte) = 0xE0 + cp div 4096"
      "unat (of_nat (0x80 + cp div 64 mod 64) :: byte) = 0x80 + cp div 64 mod 64"
      "unat (of_nat (0x80 + cp mod 64) :: byte) = 0x80 + cp mod 64"
      by (intro unat_byte; simp)+
    have e: "cp div 4096 * 4096 + cp div 64 mod 64 * 64 + cp mod 64 = cp"
      by (rule utf8_digits3)
    from bs u d m' 3 ns show ?thesis
      by (simp add: continuation_def Let_def e del: of_nat_add)
  next
    case 4
    with a have bs: "bs = [of_nat (0xF0 + cp div 262144), of_nat (0x80 + cp div 4096 mod 64),
              of_nat (0x80 + cp div 64 mod 64), of_nat (0x80 + cp mod 64)]"
      by (auto simp add: utf8_encode_char_def split: if_splits)
    from 4 have d: "cp div 262144 < 5" by arith
    from d m have u: "unat (of_nat (0xF0 + cp div 262144) :: byte) = 0xF0 + cp div 262144"
      "unat (of_nat (0x80 + cp div 4096 mod 64) :: byte) = 0x80 + cp div 4096 mod 64"
      "unat (of_nat (0x80 + cp div 64 mod 64) :: byte) = 0x80 + cp div 64 mod 64"
      "unat (of_nat (0x80 + cp mod 64) :: byte) = 0x80 + cp mod 64"
      by (intro unat_byte; simp)+
    have e: "cp div 262144 * 262144 + cp div 4096 mod 64 * 4096 + cp div 64 mod 64 * 64
             + cp mod 64 = cp" by (rule utf8_digits4)
    from bs u d m' 4 show ?thesis
      by (simp add: continuation_def Let_def e del: of_nat_add)
  next
    case 5
    with a show ?thesis by (simp add: utf8_encode_char_def)
  qed
qed

lemma utf8_roundtrip: "utf8_encode t = Some bs \<Longrightarrow> utf8_decode bs = Some t"
proof (induction t arbitrary: bs)
  case Nil
  then show ?case by simp
next
  case (Cons cp t)
  then obtain cbs rest where c: "utf8_encode_char cp = Some cbs"
    and r: "utf8_encode t = Some rest" and b: "bs = cbs @ rest"
    by (auto split: option.splits)
  from Cons.IH [OF r] utf8_decode_encode_char [OF c, of rest] b show ?case by simp
qed

lemma map_unat_of_nat:
  "list_all (\<lambda>cp. cp < 256) t \<Longrightarrow> map (unat \<circ> (of_nat :: nat \<Rightarrow> byte)) t = t"
  by (induction t) (simp_all add: unat_byte)

lemma latin_1_roundtrip: "codec_roundtrip latin_1"
  by (auto simp add: codec_roundtrip_def latin_1_def map_unat_of_nat split: if_splits)

lemma ascii_roundtrip: "codec_roundtrip ascii"
proof -
  have "list_all (\<lambda>cp. cp < 128) t \<Longrightarrow>
          list_all (\<lambda>b. unat b < 128) (map of_nat t :: bytes) \<and> map unat (map of_nat t :: bytes) = t"
    for t
    by (induction t) (simp_all add: unat_byte)
  then show ?thesis
    by (auto simp add: codec_roundtrip_def ascii_def split: if_splits)
qed

lemma utf_8_roundtrip: "codec_roundtrip utf_8"
  by (simp add: codec_roundtrip_def utf_8_def utf8_roundtrip)

lemma supported_cases:
  "charset \<in> set SUPPORTED_ENCODINGS \<Longrightarrow>
     charset = str ''utf-8'' \<or> charset = str ''gbk'' \<or> charset = str ''gb2312''
     \<or> charset = str ''gb18030'' \<or> charset = str ''iso-8859-1'' \<or> charset = str ''ascii''"
  by (auto simp add: SUPPORTED_ENCODINGS_def)

lemma supported_decodes_what_it_encodes:
  assumes "charset \<in> set SUPPORTED_ENCODINGS" and "str_encode L t charset = Some content"
    and "codec_roundtrip (gbk L)" and "codec_roundtrip (gb2312 L)"
    and "codec_roundtrip (gb18030 L)"
  shows "bytes_decode L content charset = Inr t \<and> (content = [] \<longrightarrow> t = [])"
proof -
  have r: "decode c content = Some t \<and> (content = [] \<longrightarrow> t = [])"
    if "codec_roundtrip c" "encode c t = Some content" for c
    using that by (auto simp add: codec_roundtrip_def)
  from supported_cases [OF assms(1)] show ?thesis
  proof (elim disjE)
    assume c: "charset = str ''utf-8''"
    with assms(2) have "encode utf_8 t = Some content" by (simp add: str_encode_def)
    from r [OF utf_8_roundtrip this] c show ?thesis
      by (simp add: bytes_decode_def strict_def)
  next
    assume c: "charset = str ''gbk''"
    with assms(2) have "encode (gbk L) t = Some content"
      by (simp add: str_encode_def str_simps)
    from r [OF assms(3) this] c show ?thesis
      by (simp add: bytes_decode_def strict_def str_simps)
  next
    assume c: "charset = str ''gb2312''"
    with assms(2) have "encode (gb2312 L) t = Some content"
      by (simp add: str_encode_def str_simps)
    from r [OF assms(4) this] c show ?thesis
      by (simp add: bytes_decode_def strict_def str_simps)
  next
    assume c: "charset = str ''gb18030''"
    with assms(2) have "encode (gb18030 L) t = Some content"
      by (simp add: str_encode_def str_simps)
    from r [OF assms(5) this] c show ?thesis
      by (simp add: bytes_decode_def strict_def str_simps)
  next
    assume c: "charset = str ''iso-8859-1''"
    with assms(2) have "encode latin_1 t = Some content"
      by (simp add: str_encode_def str_simps)
    from r [OF latin_1_roundtrip this] c show ?thesis
      by (simp add: bytes_decode_def strict_def str_simps)
  next
    assume c: "charset = str ''ascii''"
    with assms(2) have "encode ascii t = Some content"
      by (simp add: str_encode_def str_simps)
    from r [OF ascii_roundtrip this] c show ?thesis
      by (simp add: bytes_decode_def strict_def str_simps)
  qed
qed

text \<open>
  Claim C4. For each of the six supported charsets and every text that the charset
  encodes, decoding the encoded bytes with that charset declared returns the text.
  UTF-8, ISO-8859-1 and ASCII are the codecs written out above; for GBK, GB2312 and
  GB18030 the library's codec is assumed to decode what it encodes.
\<close>

theorem decode_content_roundtrip:
  assumes "charset \<in> set SUPPORTED_ENCODINGS" and "str_encode L t charset = Some content"
    and "codec_roundtrip (gbk L)" and "codec_roundtrip (gb2312 L)"
    and "codec_roundtrip (gb18030 L)"
  shows "decode_content L content (Some charset) = Inr t"
proof -
  from supported_decodes_what_it_encodes [OF assms]
  have d: "bytes_decode L content charset = Inr t" and e: "content = [] \<longrightarrow> t = []"
    by simp_all
  from supported_cases [OF assms(1)] have n: "charset \<noteq> []"
    by (auto simp add: str_simps)
  show ?thesis
  proof (cases "content = []")
    case True
    with e show ?thesis by (simp add: decode_content_def decode_content_by_def)
  next
    case False
    with d n show ?thesis
      by (simp add: decode_content_def decode_content_by_def declared_attempt_def)
  qed
qed

text \<open>Chinese text through UTF-8, an accented letter through ISO-8859-1, ASCII through GBK.\<close>

theorem decode_content_roundtrip_runs:
  "str_encode ascii_only [0x4E2D, 0x6587] (str ''utf-8'') = Some [0xE4, 0xB8, 0xAD, 0xE6, 0x96, 0x87]
   \<and> decode_content ascii_only [0xE4, 0xB8, 0xAD, 0xE6, 0x96, 0x87] (Some (str ''utf-8''))
       = Inr [0x4E2D, 0x6587]
   \<and> str_encode ascii_only [0xE9] (str ''iso-8859-1'') = Some [0xE9]
   \<and> decode_content ascii_only [0xE9] (Some (str ''iso-8859-1'')) = Inr [0xE9]
   \<and> str_encode ascii_only (str ''hi'') (str ''gbk'') = Some [0x68, 0x69]
   \<and> decode_content ascii_only [0x68, 0x69] (Some (str ''gbk'')) = Inr (str ''hi'')"
proof -
  have r: "codec_roundtrip (gbk ascii_only)" "codec_roundtrip (gb2312 ascii_only)"
    "codec_roundtrip (gb18030 ascii_only)"
    by (simp_all add: ascii_only_def ascii_roundtrip)
  have s: "str ''utf-8'' \<in> set SUPPORTED_ENCODINGS" "str ''iso-8859-1'' \<in> set SUPPORTED_ENCODINGS"
    "str ''gbk'' \<in> set SUPPORTED_ENCODINGS"
    by (simp_all add: SUPPORTED_ENCODINGS_def)
  have e1: "str_encode ascii_only [0x4E2D, 0x6587] (str ''utf-8'')
              = Some [0xE4, 0xB8, 0xAD, 0xE6, 0x96, 0x87]"
    by (simp add: str_encode_def utf_8_def utf8_encode_char_def)
  have e2: "str_encode ascii_only [0xE9] (str ''iso-8859-1'') = Some [0xE9]"
    by (simp add: str_encode_def latin_1_def str_simps)
  have e3: "str_encode ascii_only (str ''hi'') (str ''gbk'') = Some [0x68, 0x69]"
    by (simp add: str_encode_def ascii_only_def ascii_def str_simps)
  from decode_content_roundtrip [OF s(1) e1 r] decode_content_roundtrip [OF s(2) e2 r]
       decode_content_roundtrip [OF s(3) e3 r] e1 e2 e3
  show ?thesis by simp
qed

lemma strict_caught: "strict r = Inl e \<Longrightarrow> caught e"
  by (auto simp add: strict_def caught_def split: option.splits)

lemma fallback_loop_decodes:
  "\<exists>encoding t. fallback_loop L content SUPPORTED_ENCODINGS = Inr (Some (encoding, t))
     \<and> encoding \<in> set (take 5 SUPPORTED_ENCODINGS)"
proof -
  have l: "bytes_decode L content (str ''iso-8859-1'') = Inr (map unat content)"
    by (simp add: bytes_decode_def strict_def latin_1_def str_simps)
  have c: "caught e" if "bytes_decode L content cs = Inl e"
    "cs \<in> {str ''utf-8'', str ''gbk'', str ''gb2312'', str ''gb18030''}" for cs e
    using that by (auto simp add: bytes_decode_def str_simps dest: strict_caught)
  show ?thesis
    unfolding SUPPORTED_ENCODINGS_def
    using l c [of "str ''utf-8''"] c [of "str ''gbk''"] c [of "str ''gb2312''"]
      c [of "str ''gb18030''"]
    by (auto split: sum.splits)
qed

text \<open>
  Claim C10. For non-empty content the loop over the supported encodings returns at
  one of its first five entries, ISO-8859-1 at the latest, since ISO-8859-1 decodes
  every byte string; and whatever the content and the declared charset,
  \<open>decode_content\<close> never returns through the final decode with replacement.
\<close>

theorem fallback_never_runs_out:
  "(content \<noteq> [] \<longrightarrow>
      (\<exists>encoding t. fallback_loop L content SUPPORTED_ENCODINGS = Inr (Some (encoding, t))
         \<and> encoding \<in> set (take 5 SUPPORTED_ENCODINGS)))
   \<and> (\<forall>t. decode_content_by L content charset \<noteq> Inr (Replacement, t))"
proof -
  from fallback_loop_decodes [of L content]
  have "decode_content_by L content charset \<noteq> Inr (Replacement, t)" for t
    by (auto simp add: decode_content_by_def split: sum.splits option.splits)
  with fallback_loop_decodes [of L content] show ?thesis by simp
qed

text \<open>Bytes that are neither UTF-8 nor GBK text are decoded by ISO-8859-1.\<close>

theorem fallback_never_runs_out_runs:
  "fallback_loop ascii_only [0xFF, 0x41] SUPPORTED_ENCODINGS
     = Inr (Some (str ''iso-8859-1'', [0xFF, 0x41]))
   \<and> decode_content_by ascii_only [0xFF, 0x41] None
     = Inr (Fallback (str ''iso-8859-1''), [0xFF, 0x41])"
proof -
  have n: "[0xFF, 0x41] \<noteq> ([] :: bytes)" by simp
  have f: "fallback_loop ascii_only [0xFF, 0x41] SUPPORTED_ENCODINGS
     = Inr (Some (str ''iso-8859-1'', [0xFF, 0x41]))"
    by (simp add: SUPPORTED_ENCODINGS_def bytes_decode_def strict_def utf_8_def ascii_only_def
        ascii_def latin_1_def caught_def str_simps)
  from fallback_never_runs_out [of "[0xFF, 0x41]" ascii_only None] n f show ?thesis
    by (simp add: decode_content_by_def declared_attempt_def)
qed

text \<open>
  Claim C3, at the input where the code departs from it. With the declared charset
  \<open>undefined\<close>, the codec of Python's standard library that raises
  \<open>UnicodeError\<close> for every conversion, the first decode raises an exception that is
  neither a \<open>UnicodeDecodeError\<close> nor a \<open>LookupError\<close> (\<open>UnicodeError\<close> is the
  parent class of the former); no clause catches it, and \<open>decode_content\<close> raises
  instead of returning text.
\<close>

theorem decode_content_undefined_charset:
  "decode_content L [0x61] (Some (str ''undefined'')) = Inl UnicodeError
   \<and> \<not> caught UnicodeError"
  by (simp add: decode_content_def decode_content_by_def declared_attempt_def bytes_decode_def
      caught_def str_simps)

theorem decode_content_undefined_charset_runs:
  "decode_content ascii_only [0x61] (Some (str ''undefined'')) = Inl UnicodeError"
  using decode_content_undefined_charset [of ascii_only] by simp

text \<open>
  Away from that input the decoder does return: empty content gives the empty text
  whatever the charset, and other content gives text when no charset is declared or
  when decoding with the declared charset raises nothing but what the clause catches,
  as an unknown charset name does.
\<close>

lemma decode_content_returns:
  "decode_content L [] charset = Inr []
   \<and> (charset = None \<or> charset = Some []
        \<or> (\<exists>cs. charset = Some cs \<and> (\<forall>e. bytes_decode L content cs = Inl e \<longrightarrow> caught e))
      \<longrightarrow> (\<exists>t. decode_content L content charset = Inr t))"
proof -
  have e: "decode_content L [] charset = Inr []"
    by (simp add: decode_content_def decode_content_by_def)
  have r: "\<exists>t. decode_content L content charset = Inr t"
    if d: "\<exists>a. declared_attempt L content charset = Inr a"
  proof (cases "content = []")
    case True
    with e show ?thesis by simp
  next
    case False
    from fallback_loop_decodes [of L content]
    obtain encoding t where "fallback_loop L content SUPPORTED_ENCODINGS = Inr (Some (encoding, t))"
      by blast
    with d False show ?thesis
      by (auto simp add: decode_content_def decode_content_by_def split: option.splits)
  qed
  have "\<exists>a. declared_attempt L content charset = Inr a"
    if "charset = None \<or> charset = Some []
        \<or> (\<exists>cs. charset = Some cs \<and> (\<forall>e. bytes_decode L content cs = Inl e \<longrightarrow> caught e))"
    using that by (auto simp add: declared_attempt_def split: sum.splits)
  with e r show ?thesis by blast
qed

lemma decode_content_returns_runs:
  "decode_content ascii_only [] (Some (str ''undefined'')) = Inr []
   \<and> decode_content ascii_only [0xFF, 0x41] None = Inr [0xFF, 0x41]
   \<and> decode_content ascii_only [0xFF, 0x41] (Some (str ''no-such-charset'')) = Inr [0xFF, 0x41]
   \<and> decode_content ascii_only [0xFF, 0x41] (Some (str ''ascii'')) = Inr [0xFF, 0x41]"
proof -
  have c: "\<forall>e. bytes_decode ascii_only [0xFF, 0x41] (str ''no-such-charset'') = Inl e \<longrightarrow> caught e"
    "\<forall>e. bytes_decode ascii_only [0xFF, 0x41] (str ''ascii'') = Inl e \<longrightarrow> caught e"
    by (simp_all add: bytes_decode_def ascii_only_def strict_def ascii_def caught_def)
  have f: "fallback_loop ascii_only [0xFF, 0x41] SUPPORTED_ENCODINGS
     = Inr (Some (str ''iso-8859-1'', [0xFF, 0x41]))"
    by (simp add: SUPPORTED_ENCODINGS_def bytes_decode_def strict_def utf_8_def ascii_only_def
        ascii_def latin_1_def caught_def)
  from decode_content_returns [of ascii_only "Some (str ''undefined'')" "[]"]
       decode_content_returns [of ascii_only None "[0xFF, 0x41]"]
       decode_content_returns [of ascii_only "Some (str ''no-such-charset'')" "[0xFF, 0x41]"]
       decode_content_returns [of ascii_only "Some (str ''ascii'')" "[0xFF, 0x41]"] c f
  show ?thesis
    by (simp add: decode_content_def decode_content_by_def declared_attempt_def bytes_decode_def
        ascii_only_def strict_def ascii_def caught_def)
qed

section \<open>HTML to text and serialising: results\<close>

lemma lower_tag:
  "lower (str ''head'') = str ''head''" "lower (str ''style'') = str ''style''"
  "lower (str ''title'') = str ''title''" "lower (str ''p'') = str ''p''"
  by (simp_all add: lower_def lower_char_def str_def)

text \<open>
  Claim C5, at an input where the code departs from it. \<open>skip_data\<close> is one flag, not
  a depth: the end tag of a \<open>style\<close> element inside \<open>head\<close> clears it, so the text
  of the \<open>title\<close> element that follows, still inside \<open>head\<close>, reaches the output.
\<close>

theorem head_title_leaks:
  "text_parts (feed new_extractor leaking_document) = [str ''T'', [10], str ''Hi'', [10]]
   \<and> get_text (feed new_extractor leaking_document) = str ''T'' @ [10] @ str ''Hi''"
proof -
  have p: "feed new_extractor leaking_document
           = \<lparr>text_parts = [str ''T'', [10], str ''Hi'', [10]], skip_data = False\<rparr>"
    by (simp add: feed_def leaking_document_def new_extractor_def handle_starttag_def
        handle_endtag_def handle_data_def skip_tags_def lower_tag)
  have "get_text \<lparr>text_parts = [str ''T'', [10], str ''Hi'', [10]], skip_data = False\<rparr>
        = str ''T'' @ [10] @ str ''Hi''"
    by (simp add: get_text_def strip_def is_space_def str_def)
  with p show ?thesis by simp
qed

text \<open>
  Where no skip element is nested in another, the content is dropped: from a start
  tag of a skip element up to the first end tag of one, the handlers add nothing but
  the line breaks of block tags.
\<close>

lemma handle_while_skipping:
  "skip_data x \<Longrightarrow> \<not> (\<exists>tag. ev = EndTag tag \<and> lower tag \<in> set skip_tags) \<Longrightarrow>
     skip_data (handle x ev) \<and> set (text_parts (handle x ev)) \<subseteq> set (text_parts x) \<union> {[10]}"
  by (cases ev) (auto simp add: handle_starttag_def handle_endtag_def handle_data_def)

lemma skipped_element_adds_no_text:
  "skip_data x \<Longrightarrow>
   (\<forall>ev \<in> set events. \<not> (\<exists>tag. ev = EndTag tag \<and> lower tag \<in> set skip_tags)) \<Longrightarrow>
     skip_data (feed x events)
     \<and> set (text_parts (feed x events)) \<subseteq> set (text_parts x) \<union> {[10]}"
proof (induction events arbitrary: x)
  case Nil
  then show ?case by (auto simp add: feed_def)
next
  case (Cons ev events)
  from Cons.prems have h: "skip_data (handle x ev)"
    "set (text_parts (handle x ev)) \<subseteq> set (text_parts x) \<union> {[10]}"
    using handle_while_skipping [of x ev] by simp_all
  from Cons.IH [OF h(1)] Cons.prems(2) h(2) show ?case
    by (auto simp add: feed_def)
qed

lemma skipped_element_adds_no_text_runs:
  "feed (handle new_extractor (StartTag (str ''script'')))
        [Data (str ''var x;''), StartTag (str ''p''), Data (str ''y''), EndTag (str ''b'')]
     = \<lparr>text_parts = [[10]], skip_data = True\<rparr>"
proof -
  have s: "skip_data (handle new_extractor (StartTag (str ''script'')))"
    by (simp add: handle_starttag_def new_extractor_def skip_tags_def lower_def lower_char_def
        str_simps)
  have n: "\<forall>ev \<in> set [Data (str ''var x;''), StartTag (str ''p''), Data (str ''y''),
                          EndTag (str ''b'')].
             \<not> (\<exists>tag. ev = EndTag tag \<and> lower tag \<in> set skip_tags)"
    by (simp add: skip_tags_def lower_def lower_char_def str_simps)
  from skipped_element_adds_no_text [OF s n] show ?thesis
    by (simp add: feed_def handle_starttag_def handle_endtag_def handle_data_def
        new_extractor_def skip_tags_def lower_def lower_char_def str_simps)
qed

lemma from_data_non_object: "\<forall>kvs. v \<noteq> JObject kvs \<Longrightarrow> from_data v = Inl TypeError"
  by (cases v) (simp_all add: from_data_def)

lemma from_data_object:
  "from_data (JObject kvs) =
     (if \<forall>k \<in> set [str ''id'', str ''subject'', str ''sender'', str ''date'', str ''body''].
           map_of kvs k \<noteq> None
      then Inr \<lparr>id_field = the (map_of kvs (str ''id'')),
                subject = the (map_of kvs (str ''subject'')),
                sender = the (map_of kvs (str ''sender'')),
                date = the (map_of kvs (str ''date'')),
                body = the (map_of kvs (str ''body''))\<rparr>
      else Inl KeyError)"
  by (auto simp add: from_data_def split: option.splits)

text \<open>
  Claim C9, case by case. A string that is not JSON gives \<open>ValueError\<close>; a JSON object
  gives \<open>ValueError\<close> exactly when one of the five keys is missing; a JSON value that
  is not an object gives \<open>TypeError\<close>, which is not a \<open>ValueError\<close> (here the code
  departs from the claim); and an Email whose fields are strings comes back from its
  serialisation whenever \<open>json.loads\<close> reads back what \<open>json.dumps\<close> wrote.
\<close>

theorem deserialize_cases:
  "(loads J s = None \<longrightarrow> deserialize J s = Inl ValueError)
   \<and> (\<forall>kvs. loads J s = Some (JObject kvs) \<longrightarrow>
         (deserialize J s = Inl ValueError) =
         (\<exists>k \<in> set [str ''id'', str ''subject'', str ''sender'', str ''date'', str ''body''].
            map_of kvs k = None))
   \<and> (\<forall>v. loads J s = Some v \<and> (\<forall>kvs. v \<noteq> JObject kvs) \<longrightarrow>
         deserialize J s = Inl TypeError)
   \<and> \<not> isinstance TypeError ValueError
   \<and> (loads J (dumps J (asdict email)) = Some (asdict email) \<longrightarrow>
         deserialize J (serialize J email) =
           Inr \<lparr>id_field = JString (id_field email), subject = JString (subject email),
                sender = JString (sender email), date = JString (date email),
                body = JString (body email)\<rparr>)"
proof -
  have a: "deserialize J s = Inl ValueError" if "loads J s = None"
    using that by (simp add: deserialize_def)
  have b: "(deserialize J s = Inl ValueError) =
         (\<exists>k \<in> set [str ''id'', str ''subject'', str ''sender'', str ''date'', str ''body''].
            map_of kvs k = None)" if "loads J s = Some (JObject kvs)" for kvs
    using that by (simp add: deserialize_def from_data_object)
  have c: "deserialize J s = Inl TypeError"
    if "loads J s = Some v \<and> (\<forall>kvs. v \<noteq> JObject kvs)" for v
    using that from_data_non_object [of v] by (simp add: deserialize_def)
  have d: "deserialize J (serialize J email) =
           Inr \<lparr>id_field = JString (id_field email), subject = JString (subject email),
                sender = JString (sender email), date = JString (date email),
                body = JString (body email)\<rparr>"
    if "loads J (dumps J (asdict email)) = Some (asdict email)"
    using that by (simp add: deserialize_def serialize_def from_data_def asdict_def)
  from a b c d show ?thesis by auto
qed

text \<open>The strings \<open>[]\<close> and \<open>{\<close>, and the first message of the instances.\<close>

theorem deserialize_cases_runs:
  "deserialize json_table (str ''[]'') = Inl TypeError
   \<and> deserialize json_table (str ''{'') = Inl ValueError
   \<and> deserialize json_table (serialize json_table message_1) =
       Inr \<lparr>id_field = JString (str ''1''), subject = JString (str ''a''),
            sender = JString (str ''x''), date = JString [], body = JString (str ''one'')\<rparr>"
proof -
  have l1: "loads json_table (str ''[]'') = Some (JArray []) \<and> (\<forall>kvs. JArray [] \<noteq> JObject kvs)"
    by (simp add: json_table_def message_1_json_def)
  have l2: "loads json_table (str ''{'') = None"
    by (simp add: json_table_def message_1_json_def)
  have l3: "loads json_table (dumps json_table (asdict message_1)) = Some (asdict message_1)"
    by (simp add: json_table_def)
  from deserialize_cases [of json_table "str ''[]''" message_1]
       deserialize_cases [of json_table "str ''{''" message_1] l1 l2 l3
  show ?thesis by (simp add: message_1_def)
qed

section \<open>Signing: results\<close>



lemma unat_b64_char:
  "i < 64 \<Longrightarrow> unat (b64_char i) =
     (if i < 26 then 65 + i else if i < 52 then 97 + (i - 26)
      else if i < 62 then 48 + (i - 52) else if i = 62 then 43 else 47)"
  unfolding b64_char_def by (intro unat_byte) auto

lemma b64_char_inj: "i < 64 \<Longrightarrow> j < 64 \<Longrightarrow> b64_char i = b64_char j \<Longrightarrow> i = j"
proof -
  assume i: "i < 64" and j: "j < 64" and e: "b64_char i = b64_char j"
  from e have "unat (b64_char i) = unat (b64_char j)" by simp
  with i j show ?thesis
    by (simp add: unat_b64_char split: if_splits)
qed








lemma b64_char_eq_iff: "i < 64 \<Longrightarrow> j < 64 \<Longrightarrow> b64_char i = b64_char j \<longleftrightarrow> i = j"
  using b64_char_inj by blast



































end
